theory Spec2Isabelle
  imports Main "HOL-Library.Word"
begin

section \<open>JavaScript values used by the component\<close>

text \<open>
  The repository holds two versions of one React component \<open>App\<close>:
  \<^item> \<^verbatim>\<open>src/client/src/App.tsx\<close>, which treats every inbound WebSocket message as a
    JPEG frame (definitions prefixed \<open>client_\<close> below), and
  \<^item> \<^verbatim>\<open>src/unnamed/part_000\<close>, which adds a face count kept with \<open>useState\<close> and
    branches on \<open>typeof event.data\<close> (definitions without prefix).

  A JavaScript string is a sequence of UTF-16 code units; a binary payload is a sequence
  of bytes.
\<close>

type_synonym js_string = "16 word list"
type_synonym bytes = "8 word list"

definition js :: "string \<Rightarrow> js_string" where
  "js s = map of_char s"

text \<open>
  The Number values the component can hold. \<open>parseInt\<close> only produces integral values,
  \<open>NaN\<close>, the negative zero and, beyond the range of a double, the infinities; the initial
  state is \<open>0\<close>. \<open>Fin n\<close> is the double whose mathematical value is the integer \<open>n\<close>
  (\<open>Fin 0\<close> is the positive zero).
\<close>

datatype js_number = NaN | NegZero | Fin int | PosInfinity | NegInfinity

fun number_value :: "js_number \<Rightarrow> int option" where
  "number_value (Fin n) = Some n"
| "number_value NegZero = Some 0"
| "number_value NaN = None"
| "number_value PosInfinity = None"
| "number_value NegInfinity = None"

text \<open>
  \<open>event.data\<close> of a message event: a string for a text frame
  (\<open>typeof event.data === 'string'\<close>), binary data otherwise.
\<close>

datatype ws_data = Text js_string | Binary bytes

subsection \<open>\<open>parseInt(string, 10)\<close>\<close>

text \<open>
  ECMAScript \<open>parseInt\<close> with radix 10: trim leading white space (\<open>StrWhiteSpaceChar\<close>),
  read one optional sign, take the longest prefix of decimal digits; no digit gives
  \<open>NaN\<close>; otherwise the digits' value, with the sign, is converted to the nearest double
  (ties to even). Past the 20th significant digit ECMAScript lets an implementation
  approximate; the model is exact there, and the properties below rest on values of
  magnitude at most \<open>2^53\<close> and on explicit inputs of at most 16 digits only.
\<close>

definition is_ws :: "16 word \<Rightarrow> bool" where
  "is_ws c = (c = 0x9 \<or> c = 0xA \<or> c = 0xB \<or> c = 0xC \<or> c = 0xD \<or> c = 0x20 \<or> c = 0xA0
     \<or> c = 0x1680 \<or> (0x2000 \<le> c \<and> c \<le> 0x200A) \<or> c = 0x2028 \<or> c = 0x2029
     \<or> c = 0x202F \<or> c = 0x205F \<or> c = 0x3000 \<or> c = 0xFEFF)"

definition is_digit :: "16 word \<Rightarrow> bool" where
  "is_digit c = (0x30 \<le> c \<and> c \<le> 0x39)"

definition digit_val :: "16 word \<Rightarrow> nat" where
  "digit_val c = unat c - 48"

fun digits_value :: "nat \<Rightarrow> 16 word list \<Rightarrow> nat" where
  "digits_value acc [] = acc"
| "digits_value acc (c # cs) = digits_value (acc * 10 + digit_val c) cs"

fun bit_length :: "nat \<Rightarrow> nat" where
  "bit_length n = (if n = 0 then 0 else Suc (bit_length (n div 2)))"

declare bit_length.simps [simp del]

text \<open>
  Rounding a magnitude to 53 significant bits, to nearest and ties to even: the
  magnitude of the double nearest to an integer.
\<close>

definition round53 :: "nat \<Rightarrow> nat" where
  "round53 m =
     (let k = bit_length m in
      if k \<le> 53 then m
      else
        let e = k - 53; q = m div 2 ^ e; r = m mod 2 ^ e; h = 2 ^ (e - 1);
            q' = (if h < r \<or> (r = h \<and> odd q) then q + 1 else q)
        in q' * 2 ^ e)"

definition to_Number :: "bool \<Rightarrow> nat \<Rightarrow> js_number" where
  "to_Number negative m =
     (let v = round53 m in
      if 1024 < bit_length v then (if negative then NegInfinity else PosInfinity)
      else if negative then Fin (- int v) else Fin (int v))"

definition strip_sign :: "js_string \<Rightarrow> bool \<times> js_string" where
  "strip_sign S =
     (case S of
        [] \<Rightarrow> (False, [])
      | c # rest \<Rightarrow>
          if c = 0x2D then (True, rest)
          else if c = 0x2B then (False, rest)
          else (False, S))"

definition parseInt10 :: "js_string \<Rightarrow> js_number" where
  "parseInt10 inputString =
     (let S = dropWhile is_ws inputString;
          (negative, S') = strip_sign S;
          Z = takeWhile is_digit S'
      in if Z = [] then NaN
         else
           let mathInt = digits_value 0 Z
           in if mathInt = 0 then (if negative then NegZero else Fin 0)
              else to_Number negative mathInt)"

section \<open>The page: browser objects and React bookkeeping\<close>

text \<open>
  \<open>new Blob([event.data], { type: 'image/jpeg' })\<close> keeps the parts it was built from
  and its MIME type.
\<close>

record blob =
  blob_parts :: "ws_data list"
  blob_type :: string

text \<open>
  The canvas element behind \<open>videoRef.current\<close>: its \<open>width\<close> and \<open>height\<close>,
  whether \<open>getContext('2d')\<close> yields a context (it returns \<open>null\<close> otherwise), and
  what the last \<open>drawImage\<close> left on it.
\<close>

record draw =
  drawn_image :: nat
  dx :: int
  dy :: int
  dw :: nat
  dh :: nat

record canvas =
  width :: nat
  height :: nat
  context2d :: bool
  content :: "draw option"

text \<open>The calls the component makes on browser objects, in the order they happen.\<close>

datatype call =
    NewWebSocket nat
  | WsClose nat
  | ConsoleLog string
  | ConsoleError string
  | CreateObjectURL nat
  | DrawImage nat int int nat nat
  | RevokeObjectURL nat

text \<open>
  Objects have identity and mutable state, so the page is an explicit store. WebSocket
  objects, object URLs and Image elements are numbered in the order of their creation.
  \<^item> \<open>readyState s ws\<close> is \<open>ws.readyState\<close>: 0 CONNECTING, 1 OPEN, 2 CLOSING, 3 CLOSED.
  \<^item> \<open>listening s\<close> holds the sockets whose \<open>onopen\<close>, \<open>onmessage\<close>, \<open>onclose\<close> and
    \<open>onerror\<close> the effect has assigned.
  \<^item> \<open>object_urls s\<close> maps every live object URL to its blob.
  \<^item> \<open>loading s img = Some url\<close>: \<open>img.src = url\<close> was set, \<open>img.onload\<close> is assigned and
    the load event has not fired yet.
  \<^item> \<open>videoRef s\<close> is \<open>videoRef.current\<close> (\<open>None\<close> is \<open>null\<close>).
  \<^item> \<open>effect_ws s\<close> is the socket captured by the cleanup function of the effect that is
    live; \<open>None\<close> when the component is not mounted.
\<close>

record page =
  ws_count :: nat
  readyState :: "nat \<Rightarrow> nat"
  listening :: "nat set"
  url_count :: nat
  object_urls :: "nat \<rightharpoonup> blob"
  img_count :: nat
  loading :: "nat \<rightharpoonup> nat"
  videoRef :: "canvas option"
  effect_ws :: "nat option"
  trace :: "call list"

text \<open>
  \<^verbatim>\<open>part_000\<close> adds \<open>const [faceCount, setFaceCount] = useState(0)\<close> and renders
  \<open>{faceCount}\<close>; \<open>shown\<close> is the count in the committed DOM (\<open>None\<close> when nothing is
  rendered).
\<close>

record page2 = page +
  faceCount :: js_number
  shown :: "js_number option"

subsection \<open>Browser operations\<close>

definition new_WebSocket :: "'a page_scheme \<Rightarrow> nat \<times> 'a page_scheme" where
  "new_WebSocket s =
     (ws_count s,
      s\<lparr>ws_count := Suc (ws_count s),
        readyState := (readyState s)(ws_count s := 0),
        trace := trace s @ [NewWebSocket (ws_count s)]\<rparr>)"

text \<open>\<open>ws.close()\<close> starts the closing handshake unless the socket is closing or closed.\<close>

definition ws_close :: "nat \<Rightarrow> 'a page_scheme \<Rightarrow> 'a page_scheme" where
  "ws_close ws s =
     s\<lparr>readyState := (if readyState s ws < 2 then (readyState s)(ws := 2) else readyState s),
       trace := trace s @ [WsClose ws]\<rparr>"

definition console_log :: "string \<Rightarrow> 'a page_scheme \<Rightarrow> 'a page_scheme" where
  "console_log msg s = s\<lparr>trace := trace s @ [ConsoleLog msg]\<rparr>"

definition console_error :: "string \<Rightarrow> 'a page_scheme \<Rightarrow> 'a page_scheme" where
  "console_error msg s = s\<lparr>trace := trace s @ [ConsoleError msg]\<rparr>"

definition createObjectURL :: "blob \<Rightarrow> 'a page_scheme \<Rightarrow> nat \<times> 'a page_scheme" where
  "createObjectURL b s =
     (url_count s,
      s\<lparr>url_count := Suc (url_count s),
        object_urls := (object_urls s)(url_count s \<mapsto> b),
        trace := trace s @ [CreateObjectURL (url_count s)]\<rparr>)"

definition revokeObjectURL :: "nat \<Rightarrow> 'a page_scheme \<Rightarrow> 'a page_scheme" where
  "revokeObjectURL url s =
     s\<lparr>object_urls := (object_urls s)(url := None),
       trace := trace s @ [RevokeObjectURL url]\<rparr>"

text \<open>\<open>const img = new Image(); img.src = url; img.onload = ...\<close>\<close>

definition new_Image :: "nat \<Rightarrow> 'a page_scheme \<Rightarrow> nat \<times> 'a page_scheme" where
  "new_Image url s =
     (img_count s,
      s\<lparr>img_count := Suc (img_count s),
        loading := (loading s)(img_count s \<mapsto> url)\<rparr>)"

definition getContext2d :: "canvas \<Rightarrow> unit option" where
  "getContext2d c = (if context2d c then Some () else None)"

text \<open>
  \<open>context.drawImage(img, x, y, w, h)\<close> on the context of the canvas in \<open>videoRef\<close>:
  the image is scaled to \<open>w\<close> by \<open>h\<close> and placed at \<open>(x, y)\<close>.
\<close>

definition drawImage :: "nat \<Rightarrow> int \<Rightarrow> int \<Rightarrow> nat \<Rightarrow> nat \<Rightarrow> 'a page_scheme \<Rightarrow> 'a page_scheme" where
  "drawImage img x y w h s =
     s\<lparr>videoRef :=
         map_option
           (\<lambda>c. c\<lparr>content := Some \<lparr>drawn_image = img, dx = x, dy = y, dw = w, dh = h\<rparr>\<rparr>)
           (videoRef s),
       trace := trace s @ [DrawImage img x y w h]\<rparr>"

section \<open>\<^verbatim>\<open>src/client/src/App.tsx\<close>\<close>

text \<open>The component body: \<open>useRef\<close>, then \<open>new WebSocket(...)\<close> on every call.\<close>

definition client_App :: "'a page_scheme \<Rightarrow> nat \<times> 'a page_scheme" where
  "client_App s = new_WebSocket s"

definition client_onopen :: "'a page_scheme \<Rightarrow> 'a page_scheme" where
  "client_onopen s = console_log ''WebSocket is connected.'' s"

definition client_img_onload :: "nat \<Rightarrow> nat \<Rightarrow> 'a page_scheme \<Rightarrow> 'a page_scheme" where
  "client_img_onload url img s =
     (case videoRef s of
        None \<Rightarrow> s
      | Some current \<Rightarrow>
          (case getContext2d current of
             None \<Rightarrow> s
           | Some context \<Rightarrow>
               revokeObjectURL url
                 (drawImage img 0 0 (width current) (height current) s)))"

definition client_onmessage :: "ws_data \<Rightarrow> 'a page_scheme \<Rightarrow> 'a page_scheme" where
  "client_onmessage data s =
     (let blob = \<lparr>blob_parts = [data], blob_type = ''image/jpeg''\<rparr>;
          (url, s1) = createObjectURL blob s;
          (img, s2) = new_Image url s1
      in s2)"

definition client_onclose :: "'a page_scheme \<Rightarrow> 'a page_scheme" where
  "client_onclose s = console_log ''WebSocket is closed.'' s"

definition client_onerror :: "'a page_scheme \<Rightarrow> 'a page_scheme" where
  "client_onerror s = console_error ''WebSocket error:'' s"

definition client_cleanup :: "nat \<Rightarrow> 'a page_scheme \<Rightarrow> 'a page_scheme" where
  "client_cleanup ws s = (if readyState s ws = 1 then ws_close ws s else s)"

text \<open>The effect assigns the four handlers of \<open>ws\<close>; its result is \<open>client_cleanup ws\<close>.\<close>

definition client_effect :: "nat \<Rightarrow> 'a page_scheme \<Rightarrow> 'a page_scheme" where
  "client_effect ws s = s\<lparr>listening := insert ws (listening s)\<rparr>"

section \<open>\<^verbatim>\<open>src/unnamed/part_000\<close>\<close>

text \<open>The body also reads the state cell; the JSX it returns shows \<open>faceCount\<close>.\<close>

definition App :: "page2 \<Rightarrow> nat \<times> js_number \<times> page2" where
  "App s = (let (ws, s1) = new_WebSocket s in (ws, faceCount s, s1))"

text \<open>React ignores a state update of a component that is not mounted.\<close>

definition setFaceCount :: "js_number \<Rightarrow> page2 \<Rightarrow> page2" where
  "setFaceCount v s = (if effect_ws s = None then s else s\<lparr>faceCount := v\<rparr>)"

definition onopen :: "page2 \<Rightarrow> page2" where
  "onopen s = console_log ''WebSocket is connected.'' s"

definition img_onload :: "nat \<Rightarrow> nat \<Rightarrow> page2 \<Rightarrow> page2" where
  "img_onload url img s =
     (case videoRef s of
        None \<Rightarrow> s
      | Some current \<Rightarrow>
          (case getContext2d current of
             None \<Rightarrow> s
           | Some context \<Rightarrow>
               revokeObjectURL url
                 (drawImage img 0 0 (width current) (height current) s)))"

definition onmessage :: "ws_data \<Rightarrow> page2 \<Rightarrow> page2" where
  "onmessage data s =
     (case data of
        Text str \<Rightarrow> setFaceCount (parseInt10 str) s
      | Binary _ \<Rightarrow>
          (let blob = \<lparr>blob_parts = [data], blob_type = ''image/jpeg''\<rparr>;
               (url, s1) = createObjectURL blob s;
               (img, s2) = new_Image url s1
           in s2))"

definition onclose :: "page2 \<Rightarrow> page2" where
  "onclose s = console_log ''WebSocket is closed.'' s"

definition onerror :: "page2 \<Rightarrow> page2" where
  "onerror s = console_error ''WebSocket error:'' s"

definition cleanup :: "nat \<Rightarrow> page2 \<Rightarrow> page2" where
  "cleanup ws s = (if readyState s ws = 1 then ws_close ws s else s)"

definition effect :: "nat \<Rightarrow> page2 \<Rightarrow> page2" where
  "effect ws s = s\<lparr>listening := insert ws (listening s)\<rparr>"

section \<open>React and the event loop\<close>

text \<open>
  React calls the component body on every render. The dependency of the effect is the
  socket made by that render, a new object each time, so every render after the first
  runs the cleanup of the previous effect and then the effect again. Mounting attaches
  the canvas element to \<open>videoRef\<close>; unmounting runs the last cleanup and detaches it.
\<close>

definition client_mount :: "canvas \<Rightarrow> 'a page_scheme \<Rightarrow> 'a page_scheme" where
  "client_mount element s =
     (let (ws, s1) = client_App s;
          s2 = s1\<lparr>videoRef := Some element\<rparr>;
          s3 = client_effect ws s2
      in s3\<lparr>effect_ws := Some ws\<rparr>)"

definition client_rerender :: "'a page_scheme \<Rightarrow> 'a page_scheme" where
  "client_rerender s =
     (case effect_ws s of
        None \<Rightarrow> s
      | Some old \<Rightarrow>
          (let (ws, s1) = client_App s;
               s2 = client_cleanup old s1;
               s3 = client_effect ws s2
           in s3\<lparr>effect_ws := Some ws\<rparr>))"

definition client_unmount :: "'a page_scheme \<Rightarrow> 'a page_scheme" where
  "client_unmount s =
     (case effect_ws s of
        None \<Rightarrow> s
      | Some ws \<Rightarrow> (client_cleanup ws s)\<lparr>videoRef := None, effect_ws := None\<rparr>)"

text \<open>A fresh instance of the \<^verbatim>\<open>part_000\<close> component starts from \<open>useState(0)\<close>.\<close>

definition mount :: "canvas \<Rightarrow> page2 \<Rightarrow> page2" where
  "mount element s =
     (let (ws, jsx, s1) = App (s\<lparr>faceCount := Fin 0\<rparr>);
          s2 = s1\<lparr>videoRef := Some element, shown := Some jsx\<rparr>;
          s3 = effect ws s2
      in s3\<lparr>effect_ws := Some ws\<rparr>)"

definition rerender :: "page2 \<Rightarrow> page2" where
  "rerender s =
     (case effect_ws s of
        None \<Rightarrow> s
      | Some old \<Rightarrow>
          (let (ws, jsx, s1) = App s;
               s2 = s1\<lparr>shown := Some jsx\<rparr>;
               s3 = cleanup old s2;
               s4 = effect ws s3
           in s4\<lparr>effect_ws := Some ws\<rparr>))"

definition unmount :: "page2 \<Rightarrow> page2" where
  "unmount s =
     (case effect_ws s of
        None \<Rightarrow> s
      | Some ws \<Rightarrow> (cleanup ws s)\<lparr>videoRef := None, effect_ws := None, shown := None\<rparr>)"

text \<open>
  What the environment can do to the page: React mounts, re-renders and unmounts the
  component; a socket opens, delivers a message, closes or fails; the decode of an image
  succeeds (its load event fires, once) or fails (no \<open>onerror\<close> is assigned to the image).
  React may also call the body of a mounted component and discard the result (it does so
  before it bails out of an update that leaves the state unchanged): the body's socket is
  constructed, and no effect or cleanup runs for it.

  The page keeps one \<open>videoRef\<close>, one count and one live effect. Handlers are closures
  of the instance that assigned them; one that fires after that instance was unmounted
  and another mounted is read here as acting on the current instance.
\<close>

datatype event =
    Mount canvas
  | Rerender
  | RenderDiscarded
  | Unmount
  | WsOpen nat
  | WsMessage nat ws_data
  | WsClosed nat
  | WsError nat
  | ImgLoad nat
  | ImgError nat

datatype version = Client | Part0

definition socket_event :: "nat \<Rightarrow> page2 \<Rightarrow> bool" where
  "socket_event ws s = (ws < ws_count s \<and> ws \<in> listening s)"

fun step :: "version \<Rightarrow> event \<Rightarrow> page2 \<Rightarrow> page2" where
  "step v (Mount element) s =
     (if effect_ws s = None
      then (case v of Client \<Rightarrow> client_mount element s | Part0 \<Rightarrow> mount element s)
      else s)"
| "step v Rerender s = (case v of Client \<Rightarrow> client_rerender s | Part0 \<Rightarrow> rerender s)"
| "step v RenderDiscarded s =
     (if effect_ws s = None then s
      else (case v of Client \<Rightarrow> snd (client_App s) | Part0 \<Rightarrow> snd (snd (App s))))"
| "step v Unmount s = (case v of Client \<Rightarrow> client_unmount s | Part0 \<Rightarrow> unmount s)"
| "step v (WsOpen ws) s =
     (if ws < ws_count s \<and> readyState s ws = 0
      then (let s1 = s\<lparr>readyState := (readyState s)(ws := 1)\<rparr>
            in if ws \<in> listening s
               then (case v of Client \<Rightarrow> client_onopen s1 | Part0 \<Rightarrow> onopen s1)
               else s1)
      else s)"
| "step v (WsMessage ws data) s =
     (if socket_event ws s \<and> readyState s ws = 1
      then (case v of Client \<Rightarrow> client_onmessage data s | Part0 \<Rightarrow> onmessage data s)
      else s)"
| "step v (WsClosed ws) s =
     (if ws < ws_count s \<and> readyState s ws \<noteq> 3
      then (let s1 = s\<lparr>readyState := (readyState s)(ws := 3)\<rparr>
            in if ws \<in> listening s
               then (case v of Client \<Rightarrow> client_onclose s1 | Part0 \<Rightarrow> onclose s1)
               else s1)
      else s)"
| "step v (WsError ws) s =
     (if socket_event ws s
      then (case v of Client \<Rightarrow> client_onerror s | Part0 \<Rightarrow> onerror s)
      else s)"
| "step v (ImgLoad img) s =
     (case loading s img of
        None \<Rightarrow> s
      | Some url \<Rightarrow>
          (let s1 = s\<lparr>loading := (loading s)(img := None)\<rparr>
           in case v of Client \<Rightarrow> client_img_onload url img s1
                      | Part0 \<Rightarrow> img_onload url img s1))"
| "step v (ImgError img) s = s\<lparr>loading := (loading s)(img := None)\<rparr>"

fun run :: "version \<Rightarrow> event list \<Rightarrow> page2 \<Rightarrow> page2" where
  "run v [] s = s"
| "run v (e # es) s = run v es (step v e s)"

definition page_init :: page2 where
  "page_init =
     \<lparr>ws_count = 0, readyState = (\<lambda>_. 0), listening = {}, url_count = 0,
      object_urls = Map.empty, img_count = 0, loading = Map.empty, videoRef = None,
      effect_ws = None, trace = [], faceCount = Fin 0, shown = None\<rparr>"

text \<open>A canvas as the browser creates it for \<open><canvas className="webcam" />\<close>.\<close>

definition new_canvas :: "bool \<Rightarrow> canvas" where
  "new_canvas ctx = \<lparr>width = 300, height = 150, context2d = ctx, content = None\<rparr>"

section \<open>Notions of the specification\<close>

text \<open>
  The integer a string of decimal digits denotes, by position: the last digit counts
  once, the one before it ten times, and so on.
\<close>

definition decimal_value :: "16 word list \<Rightarrow> nat" where
  "decimal_value ds = horner_sum digit_val 10 (rev ds)"

text \<open>
  A valid base-10 integer string: an optional sign followed by one or more decimal
  digits, and the integer it denotes.
\<close>

definition decimal_integer :: "js_string \<Rightarrow> int option" where
  "decimal_integer s =
     (case s of
        [] \<Rightarrow> None
      | c # ds \<Rightarrow>
          if c = 0x2D \<or> c = 0x2B
          then (if ds \<noteq> [] \<and> list_all is_digit ds
                then Some (if c = 0x2D then - int (decimal_value ds) else int (decimal_value ds))
                else None)
          else (if list_all is_digit s then Some (int (decimal_value s)) else None))"

text \<open>
  A string with a numeric prefix: optional white space, an optional sign, then a decimal
  digit.
\<close>

definition starts_numeric :: "js_string \<Rightarrow> bool" where
  "starts_numeric s =
     (\<exists>w sg d r. list_all is_ws w \<and> (sg = [] \<or> sg = [0x2B] \<or> sg = [0x2D]) \<and> is_digit d
        \<and> s = w @ sg @ d # r)"

section \<open>Bookkeeping of object URLs\<close>

text \<open>The URLs passed to \<open>URL.revokeObjectURL\<close>, in the order of the calls.\<close>

fun revoked :: "call list \<Rightarrow> nat list" where
  "revoked [] = []"
| "revoked (RevokeObjectURL url # cs) = url # revoked cs"
| "revoked (_ # cs) = revoked cs"

text \<open>
  What holds of every page the component can reach: the URL of an image that is still
  loading was created, is live, has never been revoked and belongs to that image alone;
  only URLs that were created have been revoked.
\<close>

definition url_inv :: "page2 \<Rightarrow> bool" where
  "url_inv s =
     ((\<forall>img url. loading s img = Some url \<longrightarrow>
          url < url_count s \<and> object_urls s url \<noteq> None \<and> url \<notin> set (revoked (trace s))
          \<and> (\<forall>img'. loading s img' = Some url \<longrightarrow> img' = img))
      \<and> (\<forall>url \<in> set (revoked (trace s)). url < url_count s))"

text \<open>A URL that was created and that no loading image refers to any more.\<close>

definition url_done :: "nat \<Rightarrow> page2 \<Rightarrow> bool" where
  "url_done url s = (url < url_count s \<and> (\<forall>img. loading s img \<noteq> Some url))"

section \<open>Evaluating and characterising \<open>parseInt\<close>\<close>

lemma bit_length_0 [simp]: "bit_length 0 = 0"
  by (simp add: bit_length.simps)

lemma bit_length_Suc0 [simp]: "bit_length (Suc 0) = 1"
  by (simp add: bit_length.simps)

lemma bit_length_1 [simp]: "bit_length 1 = 1"
  by (simp add: bit_length.simps)

lemma bit_length_Bit0 [simp]: "bit_length (numeral (Num.Bit0 n)) = Suc (bit_length (numeral n))"
  by (subst bit_length.simps) simp
lemma bit_length_Bit1 [simp]: "bit_length (numeral (Num.Bit1 n)) = Suc (bit_length (numeral n))"
  by (subst bit_length.simps) simp

lemma bit_length_le_iff: "bit_length m \<le> k \<longleftrightarrow> m < 2 ^ k"
proof (induction m arbitrary: k rule: bit_length.induct)
  case (1 n)
  show ?case
  proof (cases "n = 0")
    case True
    then show ?thesis by simp
  next
    case False
    show ?thesis
    proof (cases k)
      case 0
      with False show ?thesis by (subst bit_length.simps) simp
    next
      case (Suc j)
      have "bit_length n = Suc (bit_length (n div 2))"
        using False by (subst bit_length.simps) simp
      moreover have "bit_length (n div 2) \<le> j \<longleftrightarrow> n div 2 < 2 ^ j"
        using 1 [OF False] .
      moreover have "n div 2 < 2 ^ j \<longleftrightarrow> n < 2 ^ Suc j"
        by (simp add: less_mult_imp_div_less div_less_iff_less_mult mult.commute)
      ultimately show ?thesis using Suc by simp
    qed
  qed
qed

lemma digits_value_decimal:
  "digits_value acc ds = acc * 10 ^ length ds + decimal_value ds"
  by (induction ds arbitrary: acc) (simp_all add: decimal_value_def horner_sum_append algebra_simps)

lemma round53_exact: "m \<le> 2 ^ 53 \<Longrightarrow> round53 m = m"
proof (cases "m < 2 ^ 53")
  case True
  then have "bit_length m \<le> 53" by (simp add: bit_length_le_iff)
  then show ?thesis by (simp add: round53_def)
next
  case False
  assume "m \<le> 2 ^ 53"
  with False have m: "m = 9007199254740992" by simp
  show ?thesis unfolding m by (simp add: round53_def Let_def)
qed

lemma to_Number_exact:
  assumes "m \<le> 2 ^ 53"
  shows "to_Number neg m = Fin (if neg then - int m else int m)"
proof -
  have "m < 2 ^ 1024"
    using assms by (rule le_less_trans) simp
  then have "bit_length m \<le> 1024" by (simp only: bit_length_le_iff)
  then show ?thesis using assms by (simp add: to_Number_def round53_exact)
qed


lemma is_digit_not_sign: "is_digit c \<Longrightarrow> c \<noteq> 0x2D \<and> c \<noteq> 0x2B"
  by (auto simp: is_digit_def)

lemma is_digit_not_ws: "is_digit c \<Longrightarrow> \<not> is_ws c"
  by (auto simp: is_digit_def is_ws_def word_le_nat_alt)

lemma sign_not_ws: "\<not> is_ws 0x2D" "\<not> is_ws 0x2B"
  by (simp_all add: is_ws_def)

lemma takeWhile_all: "list_all P xs \<Longrightarrow> takeWhile P xs = xs"
  by (induction xs) simp_all

lemma dropWhile_ws_append:
  "list_all is_ws w \<Longrightarrow> \<not> is_ws c \<Longrightarrow> dropWhile is_ws (w @ c # r) = c # r"
  by (induction w) simp_all

lemma parseInt10_digits:
  assumes "ds \<noteq> []" "list_all is_digit ds"
  shows "parseInt10 ds =
           (if decimal_value ds = 0 then Fin 0 else to_Number False (decimal_value ds))"
proof -
  obtain c cs where ds: "ds = c # cs" using assms(1) by (cases ds) auto
  have c: "is_digit c" using assms(2) ds by simp
  have a: "dropWhile is_ws ds = ds" using c ds by (simp add: is_digit_not_ws)
  have b: "strip_sign ds = (False, ds)"
    using is_digit_not_sign [OF c] ds by (simp add: strip_sign_def)
  have d: "takeWhile is_digit ds = ds" using assms(2) by (rule takeWhile_all)
  show ?thesis
    using assms(1) by (simp add: parseInt10_def a b d digits_value_decimal)
qed

lemma parseInt10_signed:
  assumes "c = 0x2D \<or> c = 0x2B" "ds \<noteq> []" "list_all is_digit ds"
  shows "parseInt10 (c # ds) =
           (if decimal_value ds = 0 then (if c = 0x2D then NegZero else Fin 0)
            else to_Number (c = 0x2D) (decimal_value ds))"
proof -
  have a: "dropWhile is_ws (c # ds) = c # ds" using assms(1) sign_not_ws by auto
  have b: "strip_sign (c # ds) = (c = 0x2D, ds)"
    using assms(1) by (auto simp: strip_sign_def)
  have d: "takeWhile is_digit ds = ds" using assms(3) by (rule takeWhile_all)
  show ?thesis
    using assms(2) by (simp add: parseInt10_def a b d digits_value_decimal del: dropWhile.simps)
qed

lemma parseInt10_decimal_integer:
  assumes "decimal_integer t = Some n" "\<bar>n\<bar> \<le> 2 ^ 53"
  shows "number_value (parseInt10 t) = Some n"
proof (cases t)
  case Nil
  with assms(1) show ?thesis by (simp add: decimal_integer_def)
next
  case (Cons c ds)
  show ?thesis
  proof (cases "c = 0x2D \<or> c = 0x2B")
    case True
    with assms(1) Cons have ds: "ds \<noteq> []" "list_all is_digit ds"
      and n: "n = (if c = 0x2D then - int (decimal_value ds) else int (decimal_value ds))"
      by (auto simp: decimal_integer_def split: if_splits)
    from n assms(2) have "decimal_value ds \<le> 2 ^ 53" by (auto split: if_splits)
    then show ?thesis
      unfolding Cons parseInt10_signed [OF True ds] using n
      by (simp add: to_Number_exact)
  next
    case False
    with assms(1) Cons have ds: "t \<noteq> []" "list_all is_digit t"
      and n: "n = int (decimal_value t)"
      by (auto simp: decimal_integer_def split: if_splits)
    from n assms(2) have "decimal_value t \<le> 2 ^ 53" by auto
    then show ?thesis
      unfolding parseInt10_digits [OF ds] using n
      by (simp add: to_Number_exact)
  qed
qed


lemma to_Number_not_NaN: "to_Number neg m \<noteq> NaN"
  by (simp add: to_Number_def Let_def)

lemma parseInt10_NaN_iff:
  "parseInt10 t = NaN \<longleftrightarrow> takeWhile is_digit (snd (strip_sign (dropWhile is_ws t))) = []"
  by (simp add: parseInt10_def Let_def to_Number_not_NaN split: prod.splits)

lemma strip_sign_decompose:
  "\<exists>sg. (sg = [] \<or> sg = [0x2B] \<or> sg = [0x2D]) \<and> S = sg @ snd (strip_sign S)"
  by (cases S) (auto simp: strip_sign_def)

lemma strip_sign_compose:
  assumes "sg = [] \<or> sg = [0x2B] \<or> sg = [0x2D]" "is_digit d"
  shows "snd (strip_sign (sg @ d # r)) = d # r"
  using assms is_digit_not_sign [of d] by (auto simp: strip_sign_def)

lemma starts_numeric_iff: "starts_numeric t \<longleftrightarrow> parseInt10 t \<noteq> NaN"
proof
  assume "starts_numeric t"
  then obtain w sg d r where w: "list_all is_ws w"
    and sg: "sg = [] \<or> sg = [0x2B] \<or> sg = [0x2D]" and d: "is_digit d"
    and t: "t = w @ sg @ d # r"
    unfolding starts_numeric_def by blast
  obtain c cs where ccs: "sg @ d # r = c # cs" and c: "\<not> is_ws c"
    using sg d sign_not_ws is_digit_not_ws by auto
  have "dropWhile is_ws t = sg @ d # r"
    unfolding t ccs using w c by (rule dropWhile_ws_append)
  then show "parseInt10 t \<noteq> NaN"
    using d by (simp add: parseInt10_NaN_iff strip_sign_compose [OF sg d])
next
  assume "parseInt10 t \<noteq> NaN"
  then have nonempty: "takeWhile is_digit (snd (strip_sign (dropWhile is_ws t))) \<noteq> []"
    by (simp add: parseInt10_NaN_iff)
  then obtain d r where dr: "snd (strip_sign (dropWhile is_ws t)) = d # r" and d: "is_digit d"
    by (cases "snd (strip_sign (dropWhile is_ws t))") (auto split: if_splits)
  obtain sg where sg: "sg = [] \<or> sg = [0x2B] \<or> sg = [0x2D]"
    and S: "dropWhile is_ws t = sg @ snd (strip_sign (dropWhile is_ws t))"
    using strip_sign_decompose by blast
  have "dropWhile is_ws t = sg @ d # r" using S dr by simp
  then have "t = takeWhile is_ws t @ sg @ d # r"
    by (metis takeWhile_dropWhile_id)
  moreover have "list_all is_ws (takeWhile is_ws t)"
    by (simp add: list_all_iff) (meson set_takeWhileD)
  ultimately show "starts_numeric t"
    unfolding starts_numeric_def using sg d by blast
qed

lemma abc_not_numeric: "\<not> starts_numeric (js ''abc'')"
  by (simp add: starts_numeric_iff parseInt10_def js_def is_ws_def strip_sign_def is_digit_def)

section \<open>Properties of the component\<close>

lemmas browser_defs =
  new_WebSocket_def ws_close_def console_log_def console_error_def createObjectURL_def
  revokeObjectURL_def new_Image_def getContext2d_def drawImage_def

lemmas client_defs =
  client_App_def client_onopen_def client_img_onload_def client_onmessage_def
  client_onclose_def client_onerror_def client_cleanup_def client_effect_def
  client_mount_def client_rerender_def client_unmount_def

lemmas part0_defs =
  App_def setFaceCount_def onopen_def img_onload_def onmessage_def onclose_def
  onerror_def cleanup_def effect_def mount_def rerender_def unmount_def

lemmas parse_defs =
  parseInt10_def js_def is_ws_def strip_sign_def is_digit_def digit_val_def to_Number_def
  round53_def

lemmas eval_defs = browser_defs client_defs part0_defs parse_defs page_init_def new_canvas_def
  socket_event_def Let_def

text \<open>
  The mount step and the unmount step, each taken alone. The only call a mount makes is
  one \<open>new WebSocket\<close>, in both versions, and that socket is the one the effect's cleanup
  holds. Unmounting issues exactly one \<open>close\<close>, on the socket of the live effect, if its
  \<open>readyState\<close> is 1 (open) at that time, and no call at all in any other state.
\<close>

theorem mount_opens_one_unmount_closes_open:
  fixes s :: page2
  shows "trace (mount element s) = trace s @ [NewWebSocket (ws_count s)]
    \<and> effect_ws (mount element s) = Some (ws_count s)
    \<and> trace (client_mount element s) = trace s @ [NewWebSocket (ws_count s)]
    \<and> effect_ws (client_mount element s) = Some (ws_count s)
    \<and> (effect_ws s = Some ws \<longrightarrow>
          trace (unmount s) = trace s @ (if readyState s ws = 1 then [WsClose ws] else [])
        \<and> trace (client_unmount s) = trace s @ (if readyState s ws = 1 then [WsClose ws] else []))"
  by (simp add: browser_defs client_defs part0_defs)

theorem mount_opens_one_unmount_closes_open_witness:
  "effect_ws (step Part0 (WsOpen 0) (mount (new_canvas True) page_init)) = Some 0
   \<and> trace (mount (new_canvas True) page_init) = [NewWebSocket 0]
   \<and> trace (unmount (step Part0 (WsOpen 0) (mount (new_canvas True) page_init))) =
       [NewWebSocket 0, ConsoleLog ''WebSocket is connected.'', WsClose 0]
   \<and> trace (unmount (mount (new_canvas True) page_init)) = [NewWebSocket 0]"
  using mount_opens_one_unmount_closes_open
          [of "new_canvas True" "step Part0 (WsOpen 0) (mount (new_canvas True) page_init)" 0]
        mount_opens_one_unmount_closes_open [of "new_canvas True" page_init 0]
        mount_opens_one_unmount_closes_open [of "new_canvas True" "mount (new_canvas True) page_init" 0]
  by (simp add: eval_defs)


lemma img_onload_client: "img_onload url img s = client_img_onload url img s"
  by (simp add: img_onload_def client_img_onload_def)

lemma onmessage_Binary_client: "onmessage (Binary b) s = client_onmessage (Binary b) s"
  by (simp add: onmessage_def client_onmessage_def)

lemma client_onmessage_eq:
  "client_onmessage d s =
     s\<lparr>url_count := Suc (url_count s),
       object_urls := (object_urls s)(url_count s \<mapsto> \<lparr>blob_parts = [d], blob_type = ''image/jpeg''\<rparr>),
       trace := trace s @ [CreateObjectURL (url_count s)],
       img_count := Suc (img_count s),
       loading := (loading s)(img_count s \<mapsto> url_count s)\<rparr>"
  by (simp add: client_onmessage_def createObjectURL_def new_Image_def)

lemma shown_rerender: "effect_ws s \<noteq> None \<Longrightarrow> shown (rerender s) = Some (faceCount s)"
  by (auto simp: rerender_def App_def new_WebSocket_def cleanup_def ws_close_def effect_def
      Let_def split: option.splits)

lemma onmessage_Text_mounted:
  "effect_ws s \<noteq> None \<Longrightarrow> onmessage (Text t) s = s\<lparr>faceCount := parseInt10 t\<rparr>"
  by (auto simp: onmessage_def setFaceCount_def)

text \<open>
  Claim C3, amended. While the component is mounted, a textual message that is a valid
  base-10 integer string of magnitude at most \<open>2^53\<close> makes the stored count, and the
  count displayed by the render that follows, equal to that integer.
\<close>

theorem integer_text_sets_count:
  assumes "effect_ws s \<noteq> None" and "decimal_integer t = Some n" and "\<bar>n\<bar> \<le> 2 ^ 53"
  shows "number_value (faceCount (onmessage (Text t) s)) = Some n
    \<and> Option.bind (shown (rerender (onmessage (Text t) s))) number_value = Some n"
proof -
  have "effect_ws (onmessage (Text t) s) \<noteq> None"
    using assms(1) by (simp add: onmessage_Text_mounted)
  then have "shown (rerender (onmessage (Text t) s)) = Some (faceCount (onmessage (Text t) s))"
    by (rule shown_rerender)
  moreover have "faceCount (onmessage (Text t) s) = parseInt10 t"
    using assms(1) by (simp add: onmessage_Text_mounted)
  ultimately show ?thesis
    using parseInt10_decimal_integer [OF assms(2,3)] by simp
qed

lemmas spec_defs = decimal_integer_def decimal_value_def

theorem integer_text_sets_count_witness:
  "effect_ws (mount (new_canvas True) page_init) \<noteq> None
   \<and> decimal_integer (js ''3'') = Some 3
   \<and> faceCount (onmessage (Text (js ''3'')) (mount (new_canvas True) page_init)) = Fin 3
   \<and> shown (rerender (onmessage (Text (js ''3'')) (mount (new_canvas True) page_init))) =
       Some (Fin 3)"
proof -
  have m: "effect_ws (mount (new_canvas True) page_init) \<noteq> None"
    by (simp add: eval_defs)
  have d: "decimal_integer (js ''3'') = Some 3"
    by (simp add: spec_defs js_def is_digit_def digit_val_def)
  have b: "\<bar>3 :: int\<bar> \<le> 2 ^ 53" by simp
  show ?thesis
    using m d integer_text_sets_count [OF m d b] by (simp add: eval_defs)
qed

text \<open>
  Beyond \<open>2^53\<close> the count is a double and not every integer has one: the text
  \<open>"9007199254740993"\<close> displays \<open>9007199254740992\<close>. A socket that was still
  connecting at unmount is not closed; a text it delivers later displays nothing.
\<close>

theorem large_integer_text_rounded:
  "decimal_integer (js ''9007199254740993'') = Some 9007199254740993
   \<and> shown (rerender (onmessage (Text (js ''9007199254740993''))
        (mount (new_canvas True) page_init))) = Some (Fin 9007199254740992)
   \<and> shown (run Part0 [Mount (new_canvas True), Unmount, WsOpen 0,
        WsMessage 0 (Text (js ''3'')), Rerender] page_init) = None"
  by (simp add: eval_defs spec_defs)

text \<open>
  Claim C4, amended. For a textual message handled while the component is mounted: if
  the text does not begin, after optional white space and one optional sign, with a
  decimal digit (such as \<open>"abc"\<close>), it stores \<open>NaN\<close>: the handler changes nothing but
  the count, no fallback value is substituted, and the render that follows displays
  \<open>NaN\<close>. If the text does begin that way, the stored and the displayed count are not
  \<open>NaN\<close>, even when the text as a whole is not a valid numeric string (such as
  \<open>"3abc"\<close>, which stores \<open>3\<close>).
\<close>

theorem non_numeric_text_sets_NaN:
  assumes "effect_ws s \<noteq> None"
  shows "(\<not> starts_numeric t \<longrightarrow>
            onmessage (Text t) s = s\<lparr>faceCount := NaN\<rparr>
          \<and> shown (rerender (onmessage (Text t) s)) = Some NaN)
    \<and> (starts_numeric t \<longrightarrow>
            faceCount (onmessage (Text t) s) \<noteq> NaN
          \<and> shown (rerender (onmessage (Text t) s)) \<noteq> Some NaN)"
proof -
  have e: "onmessage (Text t) s = s\<lparr>faceCount := parseInt10 t\<rparr>"
    using assms by (rule onmessage_Text_mounted)
  have "effect_ws (onmessage (Text t) s) \<noteq> None" using assms e by simp
  then have "shown (rerender (onmessage (Text t) s)) = Some (faceCount (onmessage (Text t) s))"
    by (rule shown_rerender)
  then have d: "shown (rerender (onmessage (Text t) s)) = Some (parseInt10 t)"
    using e by simp
  show ?thesis
  proof (cases "starts_numeric t")
    case True
    then have p: "parseInt10 t \<noteq> NaN" by (simp add: starts_numeric_iff)
    have "faceCount (onmessage (Text t) s) \<noteq> NaN" using e p by simp
    moreover have "shown (rerender (onmessage (Text t) s)) \<noteq> Some NaN" using d p by simp
    ultimately show ?thesis using True by blast
  next
    case False
    then have p: "parseInt10 t = NaN" by (simp add: starts_numeric_iff)
    have "onmessage (Text t) s = s\<lparr>faceCount := NaN\<rparr>" using e p by simp
    moreover have "shown (rerender (onmessage (Text t) s)) = Some NaN" using d p by simp
    ultimately show ?thesis using False by blast
  qed
qed

theorem non_numeric_text_sets_NaN_witness:
  "\<not> starts_numeric (js ''abc'')
   \<and> faceCount (onmessage (Text (js ''abc'')) (mount (new_canvas True) page_init)) = NaN
   \<and> trace (onmessage (Text (js ''abc'')) (mount (new_canvas True) page_init)) = [NewWebSocket 0]
   \<and> shown (rerender (onmessage (Text (js ''abc'')) (mount (new_canvas True) page_init))) =
       Some NaN
   \<and> starts_numeric (js ''3abc'')
   \<and> faceCount (onmessage (Text (js ''3abc'')) (mount (new_canvas True) page_init)) = Fin 3"
proof -
  have m: "effect_ws (mount (new_canvas True) page_init) \<noteq> None"
    by (simp add: eval_defs)
  have a: "\<not> starts_numeric (js ''abc'')" by (rule abc_not_numeric)
  have b: "starts_numeric (js ''3abc'')"
    by (simp add: starts_numeric_iff parseInt10_def js_def is_ws_def strip_sign_def
        is_digit_def digit_val_def to_Number_def round53_def)
  show ?thesis
    using a b non_numeric_text_sets_NaN [OF m, of "js ''abc''"]
      non_numeric_text_sets_NaN [OF m, of "js ''3abc''"]
    by (simp add: eval_defs)
qed

text \<open>
  A text that is not a valid integer string, yet starts with digits, does not give
  \<open>NaN\<close>: \<open>"3abc"\<close> displays \<open>3\<close>. After an unmount that left the socket
  connecting, \<open>"abc"\<close> displays nothing.
\<close>

theorem numeric_prefix_text_sets_prefix:
  "decimal_integer (js ''3abc'') = None
   \<and> shown (rerender (onmessage (Text (js ''3abc'')) (mount (new_canvas True) page_init))) =
       Some (Fin 3)
   \<and> shown (run Part0 [Mount (new_canvas True), Unmount, WsOpen 0,
        WsMessage 0 (Text (js ''abc'')), Rerender] page_init) = None"
  by (simp add: eval_defs spec_defs)

lemma client_img_onload_paint:
  assumes "videoRef s = Some c" "context2d c"
  shows "client_img_onload url img s =
     s\<lparr>videoRef := Some (c\<lparr>content :=
           Some \<lparr>drawn_image = img, dx = 0, dy = 0, dw = width c, dh = height c\<rparr>\<rparr>),
       trace := trace s @ [DrawImage img 0 0 (width c) (height c), RevokeObjectURL url],
       object_urls := (object_urls s)(url := None)\<rparr>"
  using assms
  by (simp add: client_img_onload_def getContext2d_def drawImage_def revokeObjectURL_def)

lemma client_img_onload_drop:
  assumes "videoRef s = None \<or> (\<exists>c. videoRef s = Some c \<and> \<not> context2d c)"
  shows "client_img_onload url img s = s"
  using assms by (auto simp: client_img_onload_def getContext2d_def)

lemma step_ImgLoad:
  "loading s img = Some url \<Longrightarrow>
   step v (ImgLoad img) s = client_img_onload url img (s\<lparr>loading := (loading s)(img := None)\<rparr>)"
  by (cases v) (simp_all add: img_onload_client)

text \<open>
  Claim C2, amended. In \<^verbatim>\<open>part_000\<close> the handler takes exactly one branch, never
  both. A textual payload is parsed and, while the component is mounted, the parse result
  replaces the face count and nothing else on the page changes; when the component is not
  mounted a textual payload leaves the page unchanged. A binary payload leaves the face
  count and the displayed count unchanged and starts one JPEG decode: one blob of type
  \<open>image/jpeg\<close> made of the payload, one object URL for it, one Image element loading
  from that URL. A loading image is painted, at the origin and scaled to the width and
  height of the canvas, when its load event fires on a page whose canvas is mounted and
  yields a 2D context. The version in \<^verbatim>\<open>client/src/App.tsx\<close> has no branch and no
  face count: every payload, textual or binary, starts such a decode.
\<close>

theorem onmessage_one_branch:
  "onmessage (Text t) s = (if effect_ws s = None then s else s\<lparr>faceCount := parseInt10 t\<rparr>)
   \<and> faceCount (onmessage (Binary b) s) = faceCount s
   \<and> shown (onmessage (Binary b) s) = shown s
   \<and> onmessage (Binary b) s =
       s\<lparr>url_count := Suc (url_count s),
         object_urls := (object_urls s)
           (url_count s \<mapsto> \<lparr>blob_parts = [Binary b], blob_type = ''image/jpeg''\<rparr>),
         trace := trace s @ [CreateObjectURL (url_count s)],
         img_count := Suc (img_count s),
         loading := (loading s)(img_count s \<mapsto> url_count s)\<rparr>
   \<and> (loading s2 img = Some url \<and> videoRef s2 = Some c \<and> context2d c \<longrightarrow>
        videoRef (step v (ImgLoad img) s2) =
          Some (c\<lparr>content := Some \<lparr>drawn_image = img, dx = 0, dy = 0,
                                   dw = width c, dh = height c\<rparr>\<rparr>))
   \<and> client_onmessage d s' =
       s'\<lparr>url_count := Suc (url_count s'),
         object_urls := (object_urls s')
           (url_count s' \<mapsto> \<lparr>blob_parts = [d], blob_type = ''image/jpeg''\<rparr>),
         trace := trace s' @ [CreateObjectURL (url_count s')],
         img_count := Suc (img_count s'),
         loading := (loading s')(img_count s' \<mapsto> url_count s')\<rparr>"
proof -
  have textual: "onmessage (Text t) s =
      (if effect_ws s = None then s else s\<lparr>faceCount := parseInt10 t\<rparr>)"
    by (simp add: onmessage_def setFaceCount_def)
  have binary: "onmessage (Binary b) s =
       s\<lparr>url_count := Suc (url_count s),
         object_urls := (object_urls s)
           (url_count s \<mapsto> \<lparr>blob_parts = [Binary b], blob_type = ''image/jpeg''\<rparr>),
         trace := trace s @ [CreateObjectURL (url_count s)],
         img_count := Suc (img_count s),
         loading := (loading s)(img_count s \<mapsto> url_count s)\<rparr>"
    by (simp add: onmessage_Binary_client client_onmessage_eq)
  have count: "faceCount (onmessage (Binary b) s) = faceCount s"
    and display: "shown (onmessage (Binary b) s) = shown s"
    by (simp_all add: binary)
  have paint: "loading s2 img = Some url \<and> videoRef s2 = Some c \<and> context2d c \<longrightarrow>
        videoRef (step v (ImgLoad img) s2) =
          Some (c\<lparr>content := Some \<lparr>drawn_image = img, dx = 0, dy = 0,
                                   dw = width c, dh = height c\<rparr>\<rparr>)"
    by (simp add: step_ImgLoad client_img_onload_paint del: step.simps)
  show ?thesis
    using textual binary count display paint client_onmessage_eq [of d s'] by blast
qed

theorem onmessage_one_branch_witness:
  "faceCount (onmessage (Text (js ''3'')) (mount (new_canvas True) page_init)) = Fin 3
   \<and> trace (onmessage (Text (js ''3'')) (mount (new_canvas True) page_init)) = [NewWebSocket 0]
   \<and> onmessage (Text (js ''3'')) page_init = page_init
   \<and> faceCount (onmessage (Binary [0xFF, 0xD8]) (mount (new_canvas True) page_init)) = Fin 0
   \<and> trace (onmessage (Binary [0xFF, 0xD8]) (mount (new_canvas True) page_init)) =
       [NewWebSocket 0, CreateObjectURL 0]
   \<and> map_option content
        (videoRef (step Part0 (ImgLoad 0)
           (onmessage (Binary [0xFF, 0xD8]) (mount (new_canvas True) page_init)))) =
       Some (Some \<lparr>drawn_image = 0, dx = 0, dy = 0, dw = 300, dh = 150\<rparr>)"
proof -
  let ?m = "mount (new_canvas True) page_init"
  let ?s2 = "onmessage (Binary [0xFF, 0xD8]) ?m"
  have l: "loading ?s2 0 = Some 0" by (simp add: eval_defs)
  have v: "videoRef ?s2 = Some (new_canvas True)" by (simp add: eval_defs)
  have c: "context2d (new_canvas True)" by (simp add: new_canvas_def)
  have e: "effect_ws page_init = None" by (simp add: page_init_def)
  show ?thesis
    using onmessage_one_branch
        [of "js ''3''" ?m "[0xFF, 0xD8]" ?s2 0 0 "new_canvas True" Part0 "Text []" page_init]
      onmessage_one_branch
        [of "js ''3''" page_init "[0xFF, 0xD8]" ?s2 0 0 "new_canvas True" Part0 "Text []" page_init]
      l v c e
    by (simp add: eval_defs del: step.simps)
qed

text \<open>
  In \<^verbatim>\<open>client/src/App.tsx\<close> the text \<open>"3"\<close> is wrapped into a blob and handed to an
  Image element, and no count is touched. In \<^verbatim>\<open>part_000\<close> a text delivered by a
  socket that was still connecting at unmount leaves the count at \<open>0\<close>, and a frame whose
  decode ends after the unmount is not painted.
\<close>

theorem client_text_takes_image_path:
  "trace (client_onmessage (Text (js ''3'')) (client_mount (new_canvas True) page_init)) =
     [NewWebSocket 0, CreateObjectURL 0]
   \<and> loading (client_onmessage (Text (js ''3'')) (client_mount (new_canvas True) page_init)) 0 =
       Some 0
   \<and> faceCount (client_onmessage (Text (js ''3'')) (client_mount (new_canvas True) page_init)) =
       faceCount page_init
   \<and> faceCount (run Part0 [Mount (new_canvas True), Unmount, WsOpen 0,
        WsMessage 0 (Text (js ''3''))] page_init) = Fin 0
   \<and> trace (run Part0 [Mount (new_canvas True), WsOpen 0, WsMessage 0 (Binary [0xFF, 0xD8]),
        Unmount, ImgLoad 0] page_init) =
       [NewWebSocket 0, ConsoleLog ''WebSocket is connected.'', CreateObjectURL 0, WsClose 0]"
  by (simp add: eval_defs)

text \<open>
  Claim C5, amended. A binary message registers one Image element whose source is an
  object URL of the blob made of the message's bytes, in both versions. When the decode
  of such an image completes and, at that time, the canvas is mounted and a 2D context is
  obtainable, the image is painted at origin \<open>(0, 0)\<close> scaled to the width and height
  the canvas has then: the canvas content is that image at those dimensions.
\<close>

theorem decoded_frame_painted:
  assumes "videoRef s' = Some c" and "context2d c"
  shows "loading (onmessage (Binary b) s) (img_count s) = Some (url_count s)
    \<and> object_urls (onmessage (Binary b) s) (url_count s) =
        Some \<lparr>blob_parts = [Binary b], blob_type = ''image/jpeg''\<rparr>
    \<and> loading (client_onmessage (Binary b) s) (img_count s) = Some (url_count s)
    \<and> object_urls (client_onmessage (Binary b) s) (url_count s) =
        Some \<lparr>blob_parts = [Binary b], blob_type = ''image/jpeg''\<rparr>
    \<and> (loading s' img = Some url \<longrightarrow>
         videoRef (step v (ImgLoad img) s') =
           Some (c\<lparr>content := Some \<lparr>drawn_image = img, dx = 0, dy = 0,
                                    dw = width c, dh = height c\<rparr>\<rparr>))"
  using assms
  by (simp add: step_ImgLoad client_img_onload_paint onmessage_Binary_client client_onmessage_eq
      del: step.simps)

theorem decoded_frame_painted_witness:
  "map_option content
     (videoRef (run Part0 [Mount (new_canvas True), WsOpen 0, WsMessage 0 (Binary [0xFF, 0xD8]),
        ImgLoad 0] page_init)) =
     Some (Some \<lparr>drawn_image = 0, dx = 0, dy = 0, dw = 300, dh = 150\<rparr>)"
proof -
  let ?s = "run Part0 [Mount (new_canvas True), WsOpen 0, WsMessage 0 (Binary [0xFF, 0xD8])] page_init"
  have v: "videoRef ?s = Some (new_canvas True)" by (simp add: eval_defs)
  have c: "context2d (new_canvas True)" by (simp add: new_canvas_def)
  have l: "loading ?s 0 = Some 0" by (simp add: eval_defs)
  have r: "run Part0 [Mount (new_canvas True), WsOpen 0, WsMessage 0 (Binary [0xFF, 0xD8]),
        ImgLoad 0] page_init = step Part0 (ImgLoad 0) ?s"
    by simp
  show ?thesis
    unfolding r
    using decoded_frame_painted [OF v c, of "[]" page_init 0 0 Part0] l
    by (simp add: new_canvas_def)
qed

text \<open>
  A frame whose decode completes on a canvas without a 2D context is not painted: the
  canvas stays blank and no \<open>drawImage\<close> call is made. Nor is a frame whose decode
  completes after the component was unmounted.
\<close>

theorem frame_not_painted_without_context:
  "map_option content
     (videoRef (run Part0 [Mount (new_canvas False), WsOpen 0, WsMessage 0 (Binary [0xFF, 0xD8]),
        ImgLoad 0] page_init)) = Some None
   \<and> trace (run Part0 [Mount (new_canvas False), WsOpen 0, WsMessage 0 (Binary [0xFF, 0xD8]),
        ImgLoad 0] page_init) =
       [NewWebSocket 0, ConsoleLog ''WebSocket is connected.'', CreateObjectURL 0]
   \<and> trace (run Part0 [Mount (new_canvas True), WsOpen 0, WsMessage 0 (Binary [0xFF, 0xD8]),
        Unmount, ImgLoad 0] page_init) =
       [NewWebSocket 0, ConsoleLog ''WebSocket is connected.'', CreateObjectURL 0, WsClose 0]"
  by (simp add: eval_defs)

text \<open>
  Claim C6. If, when the load callback of a decoded frame runs, \<open>videoRef.current\<close> is
  \<open>null\<close> or \<open>getContext('2d')\<close> returns \<open>null\<close>, the callback leaves the page exactly as
  it was, in both versions: nothing is painted, no call is made, no error path exists.
  The only trace of the load event is that the image is no longer loading.
\<close>

theorem unpaintable_frame_dropped:
  assumes "videoRef s = None \<or> (\<exists>c. videoRef s = Some c \<and> \<not> context2d c)"
  shows "img_onload url img s = s \<and> client_img_onload url img s = s
    \<and> (loading s img = Some url \<longrightarrow>
         step v (ImgLoad img) s = s\<lparr>loading := (loading s)(img := None)\<rparr>)"
proof -
  have "client_img_onload url img (s\<lparr>loading := (loading s)(img := None)\<rparr>) =
          s\<lparr>loading := (loading s)(img := None)\<rparr>"
    using assms by (intro client_img_onload_drop) simp
  then show ?thesis
    using assms
    by (simp add: step_ImgLoad img_onload_client client_img_onload_drop del: step.simps)
qed

theorem unpaintable_frame_dropped_witness:
  "videoRef (unmount (onmessage (Binary [0xFF, 0xD8]) (mount (new_canvas True) page_init))) = None
   \<and> step Part0 (ImgLoad 0)
        (unmount (onmessage (Binary [0xFF, 0xD8]) (mount (new_canvas True) page_init))) =
      (unmount (onmessage (Binary [0xFF, 0xD8]) (mount (new_canvas True) page_init)))
        \<lparr>loading := Map.empty\<rparr>"
proof -
  let ?s = "unmount (onmessage (Binary [0xFF, 0xD8]) (mount (new_canvas True) page_init))"
  have v: "videoRef ?s = None" by (simp add: eval_defs)
  then have h: "videoRef ?s = None \<or> (\<exists>c. videoRef ?s = Some c \<and> \<not> context2d c)" by simp
  have l: "loading ?s = [0 \<mapsto> 0]" by (simp add: eval_defs)
  show ?thesis
    using v l unpaintable_frame_dropped [OF h, of 0 0 Part0] by simp
qed

text \<open>
  Claim C9. On a binary message the two versions do the same: the handlers build the same
  blob, object URL and Image element, the load callbacks make the same scaled paint and
  release, and so the whole reaction of the page to the message and to the end of its
  decode is identical.
\<close>

theorem versions_agree_on_frames:
  "onmessage (Binary b) s = client_onmessage (Binary b) s
   \<and> img_onload url img s = client_img_onload url img s
   \<and> step Part0 (WsMessage ws (Binary b)) s = step Client (WsMessage ws (Binary b)) s
   \<and> step Part0 (ImgLoad img) s = step Client (ImgLoad img) s"
  by (simp add: onmessage_Binary_client img_onload_client split: option.splits)

theorem versions_agree_on_frames_witness:
  "trace (run Part0 [Mount (new_canvas True), WsOpen 0, WsMessage 0 (Binary [0xFF, 0xD8]),
        ImgLoad 0] page_init) =
     [NewWebSocket 0, ConsoleLog ''WebSocket is connected.'', CreateObjectURL 0,
      DrawImage 0 0 0 300 150, RevokeObjectURL 0]
   \<and> client_img_onload 0 0 (client_onmessage (Binary [0xFF, 0xD8]) (mount (new_canvas True) page_init))
     = img_onload 0 0 (onmessage (Binary [0xFF, 0xD8]) (mount (new_canvas True) page_init))"
  using versions_agree_on_frames [of "[0xFF, 0xD8]" "mount (new_canvas True) page_init" 0 0 0]
    versions_agree_on_frames [of "[0xFF, 0xD8]" "onmessage (Binary [0xFF, 0xD8]) (mount (new_canvas True) page_init)" 0 0 0]
  by (simp add: eval_defs)

lemma revoked_append [simp]: "revoked (a @ b) = revoked a @ revoked b"
  by (induction a rule: revoked.induct) simp_all

lemma step_urls_cases:
  "(url_count (step v e s) = url_count s \<and> object_urls (step v e s) = object_urls s
      \<and> loading (step v e s) = loading s \<and> revoked (trace (step v e s)) = revoked (trace s))
   \<or> (\<exists>k b. url_count (step v e s) = Suc (url_count s)
         \<and> object_urls (step v e s) = (object_urls s)(url_count s \<mapsto> b)
         \<and> loading (step v e s) = (loading s)(k \<mapsto> url_count s)
         \<and> revoked (trace (step v e s)) = revoked (trace s))
   \<or> (\<exists>k. url_count (step v e s) = url_count s \<and> object_urls (step v e s) = object_urls s
         \<and> loading (step v e s) = (loading s)(k := None)
         \<and> revoked (trace (step v e s)) = revoked (trace s))
   \<or> (\<exists>k u. loading s k = Some u \<and> url_count (step v e s) = url_count s
         \<and> object_urls (step v e s) = (object_urls s)(u := None)
         \<and> loading (step v e s) = (loading s)(k := None)
         \<and> revoked (trace (step v e s)) = revoked (trace s) @ [u])"
proof (cases e)
  case (Mount element)
  then show ?thesis
    by (cases v) (simp_all add: browser_defs client_defs part0_defs Let_def)
next
  case Rerender
  then show ?thesis
    by (cases v) (simp_all add: browser_defs client_defs part0_defs Let_def split: option.splits)
next
  case RenderDiscarded
  then show ?thesis
    by (cases v) (simp_all add: browser_defs client_defs part0_defs Let_def)
next
  case Unmount
  then show ?thesis
    by (cases v) (simp_all add: browser_defs client_defs part0_defs Let_def split: option.splits)
next
  case (WsOpen ws)
  then show ?thesis
    by (cases v) (simp_all add: browser_defs client_defs part0_defs Let_def)
next
  case (WsMessage ws d)
  show ?thesis
  proof (cases "socket_event ws s \<and> readyState s ws = 1")
    case False
    with WsMessage show ?thesis by auto
  next
    case True
    show ?thesis
    proof (cases "v = Part0 \<and> (\<exists>t. d = Text t)")
      case True
      then obtain t where "v = Part0" "d = Text t" by blast
      with WsMessage \<open>socket_event ws s \<and> readyState s ws = 1\<close>
      have "step v e s = s \<or> step v e s = s\<lparr>faceCount := parseInt10 t\<rparr>"
        by (simp add: onmessage_def setFaceCount_def)
      then show ?thesis by (elim disjE) simp_all
    next
      case False
      then have "step v e s = client_onmessage d s"
        using WsMessage True
        by (cases v; cases d) (simp_all add: onmessage_Binary_client)
      then show ?thesis
        by (simp add: client_onmessage_eq) blast
    qed
  qed
next
  case (WsClosed ws)
  then show ?thesis
    by (cases v) (simp_all add: browser_defs client_defs part0_defs Let_def)
next
  case (WsError ws)
  then show ?thesis
    by (cases v) (simp_all add: browser_defs client_defs part0_defs Let_def)
next
  case (ImgLoad img)
  show ?thesis
  proof (cases "loading s img")
    case None
    with ImgLoad show ?thesis by simp
  next
    case (Some url)
    let ?s1 = "s\<lparr>loading := (loading s)(img := None)\<rparr>"
    have st: "step v e s = client_img_onload url img ?s1"
      using ImgLoad Some by (simp add: step_ImgLoad del: step.simps)
    show ?thesis
    proof (cases "\<exists>c. videoRef s = Some c \<and> context2d c")
      case True
      then obtain c where c: "videoRef ?s1 = Some c" "context2d c" by auto
      show ?thesis
        unfolding st client_img_onload_paint [OF c] using Some
        by simp blast
    next
      case False
      then have "videoRef ?s1 = None \<or> (\<exists>c. videoRef ?s1 = Some c \<and> \<not> context2d c)"
        by (cases "videoRef s") auto
      then have "client_img_onload url img ?s1 = ?s1" by (rule client_img_onload_drop)
      then show ?thesis unfolding st by simp blast
    qed
  qed
next
  case (ImgError img)
  then show ?thesis by simp blast
qed


lemma url_inv_init: "url_inv page_init"
  by (simp add: url_inv_def page_init_def)

lemma url_inv_step:
  assumes "url_inv s"
  shows "url_inv (step v e s)"
proof -
  let ?s' = "step v e s"
  from step_urls_cases [of v e s] consider
    (same) "url_count ?s' = url_count s" "object_urls ?s' = object_urls s"
      "loading ?s' = loading s" "revoked (trace ?s') = revoked (trace s)"
  | (create) k b where "url_count ?s' = Suc (url_count s)"
      "object_urls ?s' = (object_urls s)(url_count s \<mapsto> b)"
      "loading ?s' = (loading s)(k \<mapsto> url_count s)"
      "revoked (trace ?s') = revoked (trace s)"
  | (forget) k where "url_count ?s' = url_count s" "object_urls ?s' = object_urls s"
      "loading ?s' = (loading s)(k := None)" "revoked (trace ?s') = revoked (trace s)"
  | (revoke) k u where "loading s k = Some u" "url_count ?s' = url_count s"
      "object_urls ?s' = (object_urls s)(u := None)"
      "loading ?s' = (loading s)(k := None)"
      "revoked (trace ?s') = revoked (trace s) @ [u]"
    by blast
  then show ?thesis
  proof cases
    case same
    with assms show ?thesis by (simp add: url_inv_def)
  next
    case create
    with assms show ?thesis
      unfolding url_inv_def
      by (auto simp: less_Suc_eq split: if_splits)
  next
    case forget
    with assms show ?thesis
      unfolding url_inv_def by (auto split: if_splits)
  next
    case revoke
    with assms show ?thesis
      unfolding url_inv_def by (auto split: if_splits)
  qed
qed

lemma url_inv_run: "url_inv s \<Longrightarrow> url_inv (run v es s)"
  by (induction es arbitrary: s) (simp_all add: url_inv_step del: step.simps)

lemma url_done_step:
  assumes "url_done url s"
  shows "url_done url (step v e s) \<and> object_urls (step v e s) url = object_urls s url
    \<and> count_list (revoked (trace (step v e s))) url = count_list (revoked (trace s)) url"
  using step_urls_cases [of v e s] assms
  unfolding url_done_def by (elim disjE exE conjE) (auto split: if_splits)

lemma url_done_run:
  assumes "url_done url s"
  shows "url_done url (run v es s) \<and> object_urls (run v es s) url = object_urls s url
    \<and> count_list (revoked (trace (run v es s))) url = count_list (revoked (trace s)) url"
  using assms
proof (induction es arbitrary: s)
  case Nil
  then show ?case by simp
next
  case (Cons e es)
  from url_done_step [OF Cons.prems, of v e]
  have d: "url_done url (step v e s)"
    and o: "object_urls (step v e s) url = object_urls s url"
    and c: "count_list (revoked (trace (step v e s))) url = count_list (revoked (trace s)) url"
    by simp_all
  from Cons.IH [OF d] show ?case
    using o c by (simp del: step.simps)
qed

lemma url_done_after_load:
  assumes "url_inv s" "loading s img = Some url"
  shows "url_done url (step v (ImgLoad img) s)"
proof -
  have "url < url_count s" and "\<forall>img'. loading s img' = Some url \<longrightarrow> img' = img"
    using assms unfolding url_inv_def by blast+
  moreover have "url_count (step v (ImgLoad img) s) = url_count s
    \<and> loading (step v (ImgLoad img) s) = (loading s)(img := None)"
  proof (cases "\<exists>c. videoRef s = Some c \<and> context2d c")
    case True
    then obtain c where c: "videoRef (s\<lparr>loading := (loading s)(img := None)\<rparr>) = Some c" "context2d c"
      by auto
    show ?thesis
      unfolding step_ImgLoad [OF assms(2)] client_img_onload_paint [OF c] by simp
  next
    case False
    then have "videoRef (s\<lparr>loading := (loading s)(img := None)\<rparr>) = None
      \<or> (\<exists>c. videoRef (s\<lparr>loading := (loading s)(img := None)\<rparr>) = Some c \<and> \<not> context2d c)"
      by (cases "videoRef s") auto
    then show ?thesis
      unfolding step_ImgLoad [OF assms(2)] by (simp add: client_img_onload_drop)
  qed
  ultimately show ?thesis
    unfolding url_done_def by auto
qed


text \<open>
  Claim C7. When the load callback paints (canvas mounted, context obtained), its calls
  are exactly \<open>drawImage\<close> followed at once by \<open>revokeObjectURL\<close> of the frame's URL,
  which is no longer live afterwards, in both versions. On a page reached from the initial
  one, for the frame of a loading image: the load event cannot run the callback a second
  time, and whatever happens later the URL has been revoked exactly once and stays
  released.
\<close>

theorem painted_frame_url_revoked_once:
  assumes "videoRef s = Some c" and "context2d c"
  shows "trace (img_onload url img s) =
        trace s @ [DrawImage img 0 0 (width c) (height c), RevokeObjectURL url]
    \<and> object_urls (img_onload url img s) = (object_urls s)(url := None)
    \<and> trace (client_img_onload url img s) =
        trace s @ [DrawImage img 0 0 (width c) (height c), RevokeObjectURL url]
    \<and> object_urls (client_img_onload url img s) = (object_urls s)(url := None)
    \<and> (s = run v es0 page_init \<and> loading s img = Some url \<longrightarrow>
          trace (step v (ImgLoad img) s) =
            trace s @ [DrawImage img 0 0 (width c) (height c), RevokeObjectURL url]
        \<and> loading (step v (ImgLoad img) s) img = None
        \<and> count_list (revoked (trace (run v es (step v (ImgLoad img) s)))) url = 1
        \<and> object_urls (run v es (step v (ImgLoad img) s)) url = None)"
proof -
  have paint: "client_img_onload url img s =
     s\<lparr>videoRef := Some (c\<lparr>content :=
           Some \<lparr>drawn_image = img, dx = 0, dy = 0, dw = width c, dh = height c\<rparr>\<rparr>),
       trace := trace s @ [DrawImage img 0 0 (width c) (height c), RevokeObjectURL url],
       object_urls := (object_urls s)(url := None)\<rparr>"
    using assms by (rule client_img_onload_paint)
  have later: "s = run v es0 page_init \<and> loading s img = Some url \<longrightarrow>
          trace (step v (ImgLoad img) s) =
            trace s @ [DrawImage img 0 0 (width c) (height c), RevokeObjectURL url]
        \<and> loading (step v (ImgLoad img) s) img = None
        \<and> count_list (revoked (trace (run v es (step v (ImgLoad img) s)))) url = 1
        \<and> object_urls (run v es (step v (ImgLoad img) s)) url = None"
  proof (intro impI, elim conjE)
    assume reach: "s = run v es0 page_init" and load: "loading s img = Some url"
    let ?s1 = "s\<lparr>loading := (loading s)(img := None)\<rparr>"
    let ?s' = "step v (ImgLoad img) s"
    have inv: "url_inv s" unfolding reach by (rule url_inv_run [OF url_inv_init])
    have c1: "videoRef ?s1 = Some c" using assms(1) by simp
    have st: "?s' =
       ?s1\<lparr>videoRef := Some (c\<lparr>content :=
             Some \<lparr>drawn_image = img, dx = 0, dy = 0, dw = width c, dh = height c\<rparr>\<rparr>),
         trace := trace ?s1 @ [DrawImage img 0 0 (width c) (height c), RevokeObjectURL url],
         object_urls := (object_urls ?s1)(url := None)\<rparr>"
      unfolding step_ImgLoad [OF load] by (rule client_img_onload_paint [OF c1 assms(2)])
    have fresh: "url \<notin> set (revoked (trace s))"
      using inv load unfolding url_inv_def by blast
    have tr: "trace ?s' = trace s @ [DrawImage img 0 0 (width c) (height c), RevokeObjectURL url]"
      by (subst st) simp
    have ld: "loading ?s' img = None" by (subst st) simp
    have ob: "object_urls ?s' url = None" by (subst st) simp
    have cnt: "count_list (revoked (trace ?s')) url = 1"
      unfolding tr using fresh by (simp add: count_list_0_iff)
    have "url_done url ?s'" using inv load by (rule url_done_after_load)
    from url_done_run [OF this, of v es]
    show "trace ?s' = trace s @ [DrawImage img 0 0 (width c) (height c), RevokeObjectURL url]
        \<and> loading ?s' img = None
        \<and> count_list (revoked (trace (run v es ?s'))) url = 1
        \<and> object_urls (run v es ?s') url = None"
      using tr ld ob cnt by (simp del: step.simps)
  qed
  have a: "trace (client_img_onload url img s) =
        trace s @ [DrawImage img 0 0 (width c) (height c), RevokeObjectURL url]"
    and b: "object_urls (client_img_onload url img s) = (object_urls s)(url := None)"
    by (simp_all add: paint)
  show ?thesis
    unfolding img_onload_client using a b later by blast
qed

theorem painted_frame_url_revoked_once_witness:
  "trace (run Part0 [Mount (new_canvas True), WsOpen 0, WsMessage 0 (Binary [0xFF, 0xD8]),
        ImgLoad 0] page_init) =
     [NewWebSocket 0, ConsoleLog ''WebSocket is connected.'', CreateObjectURL 0,
      DrawImage 0 0 0 300 150, RevokeObjectURL 0]
   \<and> count_list (revoked (trace (run Part0 [Mount (new_canvas True), WsOpen 0,
        WsMessage 0 (Binary [0xFF, 0xD8]), ImgLoad 0, ImgLoad 0,
        WsMessage 0 (Binary [0xFF, 0xD9]), ImgLoad 1, Unmount] page_init))) 0 = 1"
proof -
  let ?es0 = "[Mount (new_canvas True), WsOpen 0, WsMessage 0 (Binary [0xFF, 0xD8])]"
  let ?s = "run Part0 ?es0 page_init"
  have v: "videoRef ?s = Some (new_canvas True)" by (simp add: eval_defs)
  have c: "context2d (new_canvas True)" by (simp add: new_canvas_def)
  have l: "loading ?s 0 = Some 0" by (simp add: eval_defs)
  have t: "trace ?s = [NewWebSocket 0, ConsoleLog ''WebSocket is connected.'', CreateObjectURL 0]"
    by (simp add: eval_defs)
  have w: "width (new_canvas True) = 300" "height (new_canvas True) = 150"
    by (simp_all add: new_canvas_def)
  have r1: "run Part0 [Mount (new_canvas True), WsOpen 0, WsMessage 0 (Binary [0xFF, 0xD8]),
        ImgLoad 0] page_init = step Part0 (ImgLoad 0) ?s"
    by simp
  have r2: "run Part0 [Mount (new_canvas True), WsOpen 0,
        WsMessage 0 (Binary [0xFF, 0xD8]), ImgLoad 0, ImgLoad 0,
        WsMessage 0 (Binary [0xFF, 0xD9]), ImgLoad 1, Unmount] page_init =
      run Part0 [ImgLoad 0, WsMessage 0 (Binary [0xFF, 0xD9]), ImgLoad 1, Unmount]
        (step Part0 (ImgLoad 0) ?s)"
    by simp
  show ?thesis
    unfolding r1 r2
    using painted_frame_url_revoked_once [OF v c, where v = Part0 and ?es0.0 = ?es0
        and img = 0 and url = 0
        and es = "[ImgLoad 0, WsMessage 0 (Binary [0xFF, 0xD9]), ImgLoad 1, Unmount]"] l t w
    by (simp del: step.simps run.simps)
qed

text \<open>
  Claim C10. On a page reached from the initial one, if the decode of a loading image
  completes while \<open>videoRef.current\<close> is \<open>null\<close> or no 2D context is obtainable, the
  object URL of that frame stays live and is never revoked, whatever happens later, in
  both versions and also while the component stays mounted.
\<close>

theorem dropped_frame_url_never_revoked:
  assumes "s = run v es0 page_init" and "loading s img = Some url"
    and "videoRef s = None \<or> (\<exists>c. videoRef s = Some c \<and> \<not> context2d c)"
  shows "object_urls (run v es (step v (ImgLoad img) s)) url = object_urls s url
    \<and> object_urls s url \<noteq> None
    \<and> url \<notin> set (revoked (trace (run v es (step v (ImgLoad img) s))))"
proof -
  let ?s1 = "s\<lparr>loading := (loading s)(img := None)\<rparr>"
  let ?s' = "step v (ImgLoad img) s"
  have inv: "url_inv s" unfolding assms(1) by (rule url_inv_run [OF url_inv_init])
  have "videoRef ?s1 = None \<or> (\<exists>c. videoRef ?s1 = Some c \<and> \<not> context2d c)"
    using assms(3) by simp
  then have st: "?s' = ?s1"
    unfolding step_ImgLoad [OF assms(2)] by (rule client_img_onload_drop)
  have live: "object_urls s url \<noteq> None" and fresh: "url \<notin> set (revoked (trace s))"
    using inv assms(2) unfolding url_inv_def by blast+
  have "url_done url ?s'" using inv assms(2) by (rule url_done_after_load)
  from url_done_run [OF this, of v es]
  have "object_urls (run v es ?s') url = object_urls ?s' url"
    and "count_list (revoked (trace (run v es ?s'))) url = count_list (revoked (trace ?s')) url"
    by simp_all
  then show ?thesis
    using live fresh unfolding st by (simp add: count_list_0_iff)
qed

theorem dropped_frame_url_never_revoked_witness:
  "effect_ws (run Part0 [Mount (new_canvas False), WsOpen 0, WsMessage 0 (Binary [0xFF, 0xD8]),
        ImgLoad 0, ImgLoad 0, WsMessage 0 (Binary [0xFF, 0xD9]), ImgLoad 1] page_init) = Some 0
   \<and> object_urls (run Part0 [Mount (new_canvas False), WsOpen 0,
        WsMessage 0 (Binary [0xFF, 0xD8]), ImgLoad 0, ImgLoad 0,
        WsMessage 0 (Binary [0xFF, 0xD9]), ImgLoad 1] page_init) 0 =
       Some \<lparr>blob_parts = [Binary [0xFF, 0xD8]], blob_type = ''image/jpeg''\<rparr>
   \<and> 0 \<notin> set (revoked (trace (run Part0 [Mount (new_canvas False), WsOpen 0,
        WsMessage 0 (Binary [0xFF, 0xD8]), ImgLoad 0, ImgLoad 0,
        WsMessage 0 (Binary [0xFF, 0xD9]), ImgLoad 1] page_init)))"
proof -
  let ?es0 = "[Mount (new_canvas False), WsOpen 0, WsMessage 0 (Binary [0xFF, 0xD8])]"
  let ?s = "run Part0 ?es0 page_init"
  have v: "videoRef ?s = None \<or> (\<exists>c. videoRef ?s = Some c \<and> \<not> context2d c)"
    by (simp add: eval_defs)
  have l: "loading ?s 0 = Some 0" by (simp add: eval_defs)
  have o: "object_urls ?s 0 = Some \<lparr>blob_parts = [Binary [0xFF, 0xD8]], blob_type = ''image/jpeg''\<rparr>"
    by (simp add: eval_defs)
  have m: "effect_ws (run Part0 [Mount (new_canvas False), WsOpen 0, WsMessage 0 (Binary [0xFF, 0xD8]),
        ImgLoad 0, ImgLoad 0, WsMessage 0 (Binary [0xFF, 0xD9]), ImgLoad 1] page_init) = Some 0"
    by (simp add: eval_defs)
  have r: "run Part0 [Mount (new_canvas False), WsOpen 0,
        WsMessage 0 (Binary [0xFF, 0xD8]), ImgLoad 0, ImgLoad 0,
        WsMessage 0 (Binary [0xFF, 0xD9]), ImgLoad 1] page_init =
      run Part0 [ImgLoad 0, WsMessage 0 (Binary [0xFF, 0xD9]), ImgLoad 1]
        (step Part0 (ImgLoad 0) ?s)"
    by simp
  show ?thesis
    unfolding r
    using dropped_frame_url_never_revoked [OF refl l v,
        where es = "[ImgLoad 0, WsMessage 0 (Binary [0xFF, 0xD9]), ImgLoad 1]"] o m [unfolded r]
    by (simp del: step.simps run.simps)
qed

lemma faceCount_client_img_onload:
  "faceCount (client_img_onload url img s) = faceCount s"
  by (simp add: client_img_onload_def browser_defs split: option.splits)

lemma faceCount_step:
  "faceCount (step Part0 e s) = faceCount s \<or> faceCount (step Part0 e s) = Fin 0
   \<or> (\<exists>ws t. e = WsMessage ws (Text t) \<and> faceCount (step Part0 e s) = parseInt10 t)"
proof (cases e)
  case (WsMessage ws d)
  then show ?thesis
    by (cases d) (simp_all add: onmessage_Binary_client client_onmessage_eq,
        simp add: onmessage_def setFaceCount_def)
next
  case (ImgLoad img)
  then show ?thesis
    by (cases "loading s img")
      (simp_all add: step_ImgLoad faceCount_client_img_onload del: step.simps, simp)
qed (simp_all add: browser_defs part0_defs Let_def split: option.splits)

lemma faceCount_run:
  "faceCount (run Part0 es s) = faceCount s \<or> faceCount (run Part0 es s) = Fin 0
   \<or> (\<exists>ws t. WsMessage ws (Text t) \<in> set es \<and> faceCount (run Part0 es s) = parseInt10 t)"
proof (induction es arbitrary: s)
  case Nil
  then show ?case by simp
next
  case (Cons e es)
  let ?s1 = "step Part0 e s"
  have r: "run Part0 (e # es) s = run Part0 es ?s1" by simp
  from Cons.IH [of ?s1] consider
    (kept) "faceCount (run Part0 es ?s1) = faceCount ?s1"
  | (zero) "faceCount (run Part0 es ?s1) = Fin 0"
  | (later) ws t where "WsMessage ws (Text t) \<in> set es"
      "faceCount (run Part0 es ?s1) = parseInt10 t"
    by blast
  then show ?case
  proof cases
    case kept
    from faceCount_step [of e s] consider
      (kept1) "faceCount ?s1 = faceCount s"
    | (zero1) "faceCount ?s1 = Fin 0"
    | (now) ws t where "e = WsMessage ws (Text t)" "faceCount ?s1 = parseInt10 t"
      by blast
    then show ?thesis
    proof cases
      case kept1
      with kept show ?thesis unfolding r by simp
    next
      case zero1
      with kept show ?thesis unfolding r by simp
    next
      case now
      then have "WsMessage ws (Text t) \<in> set (e # es)"
        and "faceCount (run Part0 (e # es) s) = parseInt10 t"
        using kept unfolding r by simp_all
      then show ?thesis by blast
    qed
  next
    case zero
    then show ?thesis unfolding r by simp
  next
    case later
    then have "WsMessage ws (Text t) \<in> set (e # es)"
      and "faceCount (run Part0 (e # es) s) = parseInt10 t"
      unfolding r by simp_all
    then show ?thesis by blast
  qed
qed

text \<open>
  Claim C8, amended. The stored face count is a single number: \<open>0\<close> at mount; each
  textual message handled while mounted replaces it by the parse result of that message
  alone, whatever the count was before; binary messages and load callbacks leave it
  alone. It is a non-negative integer at every point as long as every textual message
  received so far is a valid integer string denoting a value between \<open>0\<close> and \<open>2^53\<close>.
\<close>

theorem face_count_latest_parse:
  assumes "\<forall>ws t. WsMessage ws (Text t) \<in> set es \<longrightarrow>
             (\<exists>n. decimal_integer t = Some n \<and> 0 \<le> n \<and> n \<le> 2 ^ 53)"
  shows "(\<exists>n. number_value (faceCount (run Part0 es page_init)) = Some n \<and> 0 \<le> n)
    \<and> faceCount (mount element s) = Fin 0
    \<and> (effect_ws s \<noteq> None \<longrightarrow> faceCount (onmessage (Text t) s) = parseInt10 t)
    \<and> faceCount (onmessage (Binary b) s) = faceCount s
    \<and> faceCount (img_onload url img s) = faceCount s"
proof -
  have "\<exists>n. number_value (faceCount (run Part0 es page_init)) = Some n \<and> 0 \<le> n"
    using faceCount_run [of es page_init]
  proof (elim disjE exE conjE)
    assume "faceCount (run Part0 es page_init) = faceCount page_init"
    then show ?thesis by (simp add: page_init_def)
  next
    assume "faceCount (run Part0 es page_init) = Fin 0"
    then show ?thesis by simp
  next
    fix ws t
    assume m: "WsMessage ws (Text t) \<in> set es"
      and f: "faceCount (run Part0 es page_init) = parseInt10 t"
    from assms m obtain n where n: "decimal_integer t = Some n" "0 \<le> n" "n \<le> 2 ^ 53"
      by blast
    then have "\<bar>n\<bar> \<le> 2 ^ 53" by simp
    from parseInt10_decimal_integer [OF n(1) this] show ?thesis
      using f n(2) by simp
  qed
  moreover have "faceCount (mount element s) = Fin 0"
    by (simp add: mount_def App_def new_WebSocket_def effect_def)
  moreover have "effect_ws s \<noteq> None \<longrightarrow> faceCount (onmessage (Text t) s) = parseInt10 t"
    by (simp add: onmessage_Text_mounted)
  moreover have "faceCount (onmessage (Binary b) s) = faceCount s"
    by (simp add: onmessage_Binary_client client_onmessage_eq)
  moreover have "faceCount (img_onload url img s) = faceCount s"
    by (simp add: img_onload_client faceCount_client_img_onload)
  ultimately show ?thesis by blast
qed

theorem face_count_latest_parse_witness:
  "faceCount (run Part0 [Mount (new_canvas True), WsOpen 0, WsMessage 0 (Text (js ''3'')),
      Rerender, WsOpen 1, WsMessage 1 (Text (js ''12''))] page_init) = Fin 12
   \<and> faceCount (run Part0 [Mount (new_canvas True), WsOpen 0, WsMessage 0 (Text (js ''3''))]
       page_init) = Fin 3"
proof -
  let ?es = "[Mount (new_canvas True), WsOpen 0, WsMessage 0 (Text (js ''3'')),
      Rerender, WsOpen 1, WsMessage 1 (Text (js ''12''))]"
  have d3: "decimal_integer (js ''3'') = Some 3"
    by (simp add: spec_defs js_def is_digit_def digit_val_def)
  have d12: "decimal_integer (js ''12'') = Some 12"
    by (simp add: spec_defs js_def is_digit_def digit_val_def)
  have h: "\<forall>ws t. WsMessage ws (Text t) \<in> set ?es \<longrightarrow>
             (\<exists>n. decimal_integer t = Some n \<and> 0 \<le> n \<and> n \<le> 2 ^ 53)"
    using d3 d12 by auto
  show ?thesis
    using face_count_latest_parse [OF h, of "new_canvas True" page_init "js ''3''" "[]" 0 0]
    by (simp add: eval_defs)
qed

text \<open>
  The text \<open>"-3"\<close> makes the stored count negative and the text \<open>"abc"\<close> makes it
  \<open>NaN\<close>.
\<close>

theorem face_count_negative_or_NaN:
  "faceCount (run Part0 [Mount (new_canvas True), WsOpen 0, WsMessage 0 (Text (js ''-3''))]
     page_init) = Fin (- 3)
   \<and> faceCount (run Part0 [Mount (new_canvas True), WsOpen 0, WsMessage 0 (Text (js ''abc''))]
     page_init) = NaN"
  by (simp add: eval_defs)

text \<open>
  A re-render of \<^verbatim>\<open>part_000\<close> (React re-renders after the count has changed) runs the
  component body again: it constructs a further socket and the cleanup closes the
  previous one if that is open.
\<close>

lemma rerender_opens_socket:
  "effect_ws s = Some old \<Longrightarrow>
   trace (rerender s) = trace s @ NewWebSocket (ws_count s)
       # (if readyState s old = 1 \<and> old \<noteq> ws_count s then [WsClose old] else [])"
  by (simp add: browser_defs part0_defs Let_def)

text \<open>
  Claim C1 asks for exactly one connection per mount, closed on unmount if it is open.
  \<^verbatim>\<open>part_000\<close> does not keep to it over the mounted lifetime. The component is
  mounted, its socket opens and delivers the text \<open>"3"\<close>; the count changes and React
  renders again. The body has then constructed a second socket and the cleanup has closed
  the first one, while the component is still mounted.
\<close>

theorem rerender_opens_second_connection:
  "effect_ws (run Part0 [Mount (new_canvas True), WsOpen 0, WsMessage 0 (Text (js ''3'')),
      Rerender] page_init) = Some 1
   \<and> ws_count (run Part0 [Mount (new_canvas True), WsOpen 0, WsMessage 0 (Text (js ''3'')),
      Rerender] page_init) = 2
   \<and> trace (run Part0 [Mount (new_canvas True), WsOpen 0, WsMessage 0 (Text (js ''3'')),
      Rerender] page_init) =
       [NewWebSocket 0, ConsoleLog ''WebSocket is connected.'', NewWebSocket 1, WsClose 0]
   \<and> shown (run Part0 [Mount (new_canvas True), WsOpen 0, WsMessage 0 (Text (js ''3'')),
      Rerender] page_init) = Some (Fin 3)"
  by (simp add: eval_defs)

end
